theory Spec2Isabelle
  imports Complex_Main
begin

section \<open>Python values used by the spreadsheet tools\<close>

text \<open>
  A cell is a Python \<open>str\<close>; a grid is a list of rows, each a list of cells, as the
  spreadsheet service returns it (rows may be ragged). A \<open>dict\<close> keeps its keys in
  insertion order, and assigning to a key that is already present replaces the value
  and leaves the key where it is: an association list with \<open>dict_set\<close>.
\<close>

type_synonym cell_grid = "string list list"

type_synonym 'v dict = "(string \<times> 'v) list"

type_synonym row_dict = "string dict"

fun dict_set :: "string \<Rightarrow> 'v \<Rightarrow> 'v dict \<Rightarrow> 'v dict" where
  "dict_set k v [] = [(k, v)]"
| "dict_set k v ((k', v') # d) = (if k' = k then (k, v) # d else (k', v') # dict_set k v d)"

definition dict_get :: "'v dict \<Rightarrow> string \<Rightarrow> 'v option" where
  "dict_get d k = map_of d k"

definition dict_keys :: "'v dict \<Rightarrow> string list" where
  "dict_keys d = map fst d"

definition dict_values :: "'v dict \<Rightarrow> 'v list" where
  "dict_values d = map snd d"

section \<open>read_sheet_data: from a grid to keyed records\<close>

text \<open>\<open>row[i] if i < len(row) else ""\<close>\<close>

definition cell_at :: "string list \<Rightarrow> nat \<Rightarrow> string" where
  "cell_at row i = (if i < length row then row ! i else [])"

text \<open>
  The inner loop \<open>for i, header in enumerate(headers): row_dict[header] = ...\<close>,
  started from the dict \<open>acc\<close> at index \<open>n\<close>.
\<close>

definition fill_row :: "string list \<Rightarrow> nat \<Rightarrow> string list \<Rightarrow> row_dict \<Rightarrow> row_dict" where
  "fill_row row n headers acc =
     fold (\<lambda>(i, header) row_dict. dict_set header (cell_at row i) row_dict)
       (enumerate n headers) acc"

definition build_row :: "string list \<Rightarrow> string list \<Rightarrow> row_dict" where
  "build_row headers row = fill_row row 0 headers []"

text \<open>The outer loop \<open>for row in data_rows: ... data.append(row_dict)\<close>.\<close>

definition build_records :: "string list \<Rightarrow> cell_grid \<Rightarrow> row_dict list" where
  "build_records headers data_rows = map (build_row headers) data_rows"

text \<open>
  The branch \<open>if len(values) > 1\<close> of \<open>read_sheet_data\<close>: headers and records of a
  grid, \<open>None\<close> when the grid has fewer than two rows.
\<close>

definition structured :: "cell_grid \<Rightarrow> (string list \<times> row_dict list) option" where
  "structured values =
     (case values of
        headers # row # rows \<Rightarrow> Some (headers, build_records headers (row # rows))
      | _ \<Rightarrow> None)"

section \<open>Python strings\<close>

text \<open>
  A \<open>char\<close> stands for the code point of the same number, so a \<open>string\<close> is a Python
  \<open>str\<close> over the code points below 256. \<open>str.isspace\<close> and \<open>str.isdigit\<close> are the
  Unicode predicates restricted to that range: the white space characters are the ASCII
  ones, the separators \<open>0x1C\<close> to \<open>0x1F\<close>, NEL and the no-break space; the digits are
  \<open>0\<close> to \<open>9\<close> and the superscripts one, two and three.
\<close>

definition py_isspace :: "char \<Rightarrow> bool" where
  "py_isspace c =
     (c \<in> set [CHR 0x09, CHR 0x0A, CHR 0x0B, CHR 0x0C, CHR 0x0D, CHR 0x1C, CHR 0x1D, CHR 0x1E,
               CHR 0x1F, CHR 0x20, CHR 0x85, CHR 0xA0])"

text \<open>\<open>s.strip()\<close>\<close>

definition py_strip :: "string \<Rightarrow> string" where
  "py_strip s = rev (dropWhile py_isspace (rev (dropWhile py_isspace s)))"

definition ascii_digit :: "char \<Rightarrow> bool" where
  "ascii_digit c = (c \<in> set ''0123456789'')"

definition digit_char :: "char \<Rightarrow> bool" where
  "digit_char c = (ascii_digit c \<or> c \<in> set [CHR 0xB2, CHR 0xB3, CHR 0xB9])"

text \<open>\<open>s.isdigit()\<close>: at least one character, and every character a digit.\<close>

definition py_isdigit :: "string \<Rightarrow> bool" where
  "py_isdigit s = (s \<noteq> [] \<and> list_all digit_char s)"

text \<open>\<open>s.replace(c, '')\<close> for a one-character \<open>c\<close>\<close>

definition py_remove :: "char \<Rightarrow> string \<Rightarrow> string" where
  "py_remove c s = filter (\<lambda>x. x \<noteq> c) s"



text \<open>
  \<open>repr(s)\<close>: single quotes, unless the text has a single quote and no double quote;
  the quote and the backslash are escaped, tab, newline and carriage return are
  written \<open>\t\<close>, \<open>\n\<close>, \<open>\r\<close>, and any other character that is not printable as
  \<open>\xhh\<close>.
\<close>

definition hex2 :: "nat \<Rightarrow> string" where
  "hex2 n = [''0123456789abcdef'' ! (n div 16), ''0123456789abcdef'' ! (n mod 16)]"

definition py_isprintable :: "char \<Rightarrow> bool" where
  "py_isprintable c =
     ((32 \<le> (of_char c :: nat) \<and> (of_char c :: nat) < 127)
      \<or> (161 \<le> (of_char c :: nat) \<and> (of_char c :: nat) \<noteq> 173))"

definition repr_char :: "char \<Rightarrow> char \<Rightarrow> string" where
  "repr_char quote c =
     (if c = quote \<or> c = CHR 0x5C then [CHR 0x5C, c]
      else if c = CHR 0x09 then [CHR 0x5C, CHR ''t'']
      else if c = CHR 0x0A then [CHR 0x5C, CHR ''n'']
      else if c = CHR 0x0D then [CHR 0x5C, CHR ''r'']
      else if py_isprintable c then [c]
      else [CHR 0x5C, CHR ''x''] @ hex2 (of_char c))"

definition py_repr :: "string \<Rightarrow> string" where
  "py_repr s =
     (if CHR 0x27 \<in> set s \<and> CHR 0x22 \<notin> set s
      then [CHR 0x22] @ concat (map (repr_char (CHR 0x22)) s) @ [CHR 0x22]
      else [CHR 0x27] @ concat (map (repr_char (CHR 0x27)) s) @ [CHR 0x27])"

section \<open>Numbers read from cells\<close>

text \<open>
  The eligibility test of the statistics analysis:
  \<open>str(v).replace('.', '').replace('-', '').isdigit()\<close>.
\<close>

definition numeric_eligible :: "string \<Rightarrow> bool" where
  "numeric_eligible v = py_isdigit (py_remove (CHR ''-'') (py_remove (CHR ''.'') v))"

definition digit_value :: "char \<Rightarrow> nat" where
  "digit_value c = of_char c - 48"

definition decimal_value :: "string \<Rightarrow> nat" where
  "decimal_value s = foldl (\<lambda>n c. 10 * n + digit_value c) 0 s"

text \<open>
  \<open>float(v)\<close>. The analysis calls it only on a text that passed the eligibility test,
  which holds nothing but digits, dots and minus signs: no white space, plus sign,
  exponent, underscore or letter. On such a text \<open>float\<close> accepts an optional minus
  sign followed by ASCII digits with at most one dot and at least one digit, and raises
  \<open>ValueError\<close> otherwise (\<open>None\<close>). The value is the rational number the numeral
  denotes; the rounding of that number to a binary double is outside this model.
\<close>

definition unsigned_value :: "string \<Rightarrow> rat option" where
  "unsigned_value s =
     (case dropWhile ascii_digit s of
        [] \<Rightarrow> if s = [] then None else Some (of_nat (decimal_value s))
      | c # fraction \<Rightarrow>
          if c = CHR ''.'' \<and> list_all ascii_digit fraction
             \<and> (takeWhile ascii_digit s \<noteq> [] \<or> fraction \<noteq> [])
          then Some (of_nat (decimal_value (takeWhile ascii_digit s @ fraction)) / 10 ^ length fraction)
          else None)"

definition py_float :: "string \<Rightarrow> rat option" where
  "py_float v =
     (case v of
        [] \<Rightarrow> None
      | c # rest \<Rightarrow>
          if c = CHR ''-'' then map_option uminus (unsigned_value rest) else unsigned_value v)"

section \<open>JSON objects and exceptions\<close>

text \<open>
  Every tool returns \<open>json.dumps\<close> of a dict, and a caller reads it back with
  \<open>json.loads\<close>, which gives back the same dict (string keys in the same order,
  strings, integers, booleans, lists). The text is therefore modelled by the value it
  encodes.
\<close>

datatype json =
    JBool bool
  | JInt int
  | JNumber rat
  | JStr string
  | JList "json list"
  | JObject "(string \<times> json) list"

definition json_has :: "string \<Rightarrow> json \<Rightarrow> bool" where
  "json_has k j = (case j of JObject members \<Rightarrow> k \<in> set (map fst members) | _ \<Rightarrow> False)"

definition json_get :: "string \<Rightarrow> json \<Rightarrow> json option" where
  "json_get k j = (case j of JObject members \<Rightarrow> map_of members k | _ \<Rightarrow> None)"

text \<open>
  What a tool body can raise: any exception of the remote call, with its message; a
  \<open>KeyError\<close> of a dict lookup; a \<open>ValueError\<close> of \<open>float\<close>. \<open>exception_str\<close> is
  \<open>str(e)\<close>.
\<close>

datatype py_exception =
    RemoteError string
  | KeyError string
  | ValueError string

fun exception_str :: "py_exception \<Rightarrow> string" where
  "exception_str (RemoteError msg) = msg"
| "exception_str (KeyError k) = py_repr k"
| "exception_str (ValueError v) = ''could not convert string to float: '' @ py_repr v"

text \<open>\<open>json.dumps({"error": f"<prefix>{str(e)}"})\<close>\<close>

definition error_json :: "string \<Rightarrow> py_exception \<Rightarrow> json" where
  "error_json prefix e = JObject [(''error'', JStr (prefix @ exception_str e))]"

section \<open>The spreadsheet service\<close>




text \<open>\<open>d.get(key, default)\<close>\<close>

definition get_default :: "'a \<Rightarrow> 'a option \<Rightarrow> 'a" where
  "get_default d v = (case v of None \<Rightarrow> d | Some x \<Rightarrow> x)"


definition json_strs :: "string list \<Rightarrow> json" where
  "json_strs xs = JList (map JStr xs)"

definition json_row :: "row_dict \<Rightarrow> json" where
  "json_row row = JObject (map (\<lambda>(k, v). (k, JStr v)) row)"

definition json_grid :: "cell_grid \<Rightarrow> json" where
  "json_grid rows = JList (map json_strs rows)"

section \<open>read_sheet_data\<close>

text \<open>
  The four dicts \<open>read_sheet_data\<close> can return, and the JSON object of each. The tools
  also record the sheet they touched in a session object; no tool reads that record
  back, so it is left out.
\<close>

datatype read_result =
    ReadFailed py_exception
  | NoData
  | Structured string "string list" "row_dict list" nat
  | RawData string cell_grid nat


definition read_json :: "read_result \<Rightarrow> json" where
  "read_json r =
     (case r of
        ReadFailed e \<Rightarrow> error_json ''Failed to read sheet data: '' e
      | NoData \<Rightarrow> JObject [(''message'', JStr ''No data found in the specified range'')]
      | Structured full_range headers data row_count \<Rightarrow>
          JObject [(''range'', JStr full_range), (''headers'', json_strs headers),
                   (''data'', JList (map json_row data)), (''row_count'', JInt (int row_count))]
      | RawData full_range values row_count \<Rightarrow>
          JObject [(''range'', JStr full_range), (''raw_data'', json_grid values),
                   (''row_count'', JInt (int row_count))])"

section \<open>write_sheet_data, append_sheet_data, clear_sheet_range\<close>




section \<open>analyze_sheet_data\<close>

text \<open>
  \<open>analyze_sheet_data\<close> calls \<open>read_sheet_data\<close>, and \<open>create_summary_report\<close> calls
  \<open>analyze_sheet_data\<close> and \<open>write_sheet_data\<close>, by name; the decorator
  \<open>function_tool\<close> of the agent library is taken to leave each function callable with
  the body it has in the source. The values of the cells are strings, so \<open>str(value)\<close>
  is the value.
\<close>

record summary =
  row_count :: nat
  column_count :: nat
  non_empty_cells :: nat
  sample_data :: "row_dict list"

record col_stats =
  stat_count :: nat
  stat_mean :: rat
  stat_min :: rat
  stat_max :: rat

record trends =
  most_common_values :: "(string \<times> nat) list dict"
  empty_cells :: nat
  total_cells :: nat

datatype payload =
    NoPayload
  | Summary summary
  | NumericStatistics "col_stats dict"
  | Trends trends

record analysis =
  analysis_type :: string
  analysis_range :: string
  total_rows :: nat
  total_columns :: nat
  columns :: "string list"
  payload :: payload

text \<open>\<open>row[col]\<close>, which raises \<open>KeyError\<close> when the key is missing.\<close>

definition row_item :: "row_dict \<Rightarrow> string \<Rightarrow> py_exception + string" where
  "row_item row col = (case dict_get row col of None \<Rightarrow> Inl (KeyError col) | Some v \<Rightarrow> Inr v)"

text \<open>\<open>[value for row in data for value in row.values()]\<close>\<close>

definition all_values :: "row_dict list \<Rightarrow> string list" where
  "all_values data = concat (map dict_values data)"

definition summary_of :: "string list \<Rightarrow> row_dict list \<Rightarrow> summary" where
  "summary_of headers data =
     \<lparr>row_count = length data,
      column_count = length headers,
      non_empty_cells = length (filter (\<lambda>value. py_strip value \<noteq> []) (all_values data)),
      sample_data = (if length data > 3 then take 3 data else data)\<rparr>"

text \<open>
  \<open>[float(row[col]) for row in data if str(row[col]).replace('.', '').replace('-', '').isdigit()]\<close>:
  the first row whose lookup or conversion raises ends the comprehension with that
  exception.
\<close>

fun float_values :: "string \<Rightarrow> row_dict list \<Rightarrow> py_exception + rat list" where
  "float_values col [] = Inr []"
| "float_values col (row # rows) =
     (case row_item row col of
        Inl e \<Rightarrow> Inl e
      | Inr v \<Rightarrow>
          if numeric_eligible v
          then (case py_float v of
                  None \<Rightarrow> Inl (ValueError v)
                | Some x \<Rightarrow>
                    (case float_values col rows of Inl e \<Rightarrow> Inl e | Inr xs \<Rightarrow> Inr (x # xs)))
          else float_values col rows)"

text \<open>
  The body of \<open>for col in headers\<close> in the statistics branch: \<open>except: continue\<close>
  leaves the dict as it is, and so does an empty list of values.
\<close>

definition numeric_step :: "row_dict list \<Rightarrow> string \<Rightarrow> col_stats dict \<Rightarrow> col_stats dict" where
  "numeric_step data col numeric_analysis =
     (case float_values col data of
        Inl e \<Rightarrow> numeric_analysis
      | Inr [] \<Rightarrow> numeric_analysis
      | Inr (v # vs) \<Rightarrow>
          dict_set col
            \<lparr>stat_count = length (v # vs),
             stat_mean = foldl (+) 0 (v # vs) / of_nat (length (v # vs)),
             stat_min = foldl min v vs,
             stat_max = foldl max v vs\<rparr>
            numeric_analysis)"

definition numeric_statistics :: "string list \<Rightarrow> row_dict list \<Rightarrow> col_stats dict" where
  "numeric_statistics headers data = fold (numeric_step data) headers []"

text \<open>\<open>[str(row[col]).strip() for row in data if str(row[col]).strip()]\<close>\<close>

fun stripped_values :: "string \<Rightarrow> row_dict list \<Rightarrow> py_exception + string list" where
  "stripped_values col [] = Inr []"
| "stripped_values col (row # rows) =
     (case row_item row col of
        Inl e \<Rightarrow> Inl e
      | Inr v \<Rightarrow>
          (case stripped_values col rows of
             Inl e \<Rightarrow> Inl e
           | Inr vs \<Rightarrow> Inr (if py_strip v \<noteq> [] then py_strip v # vs else vs)))"

text \<open>\<open>for value in values: value_counts[value] = value_counts.get(value, 0) + 1\<close>\<close>

definition count_step :: "string \<Rightarrow> nat dict \<Rightarrow> nat dict" where
  "count_step value value_counts =
     dict_set value (get_default 0 (dict_get value_counts value) + 1) value_counts"

definition value_counts_of :: "string list \<Rightarrow> nat dict" where
  "value_counts_of values = fold count_step values []"

text \<open>
  \<open>sorted(items, key=lambda x: x[1], reverse=True)\<close>: a stable sort of the reversed
  list by ascending key, reversed again, which is how \<open>reverse=True\<close> keeps the
  original order of items with equal keys.
\<close>

definition sorted_reverse :: "(string \<times> nat) list \<Rightarrow> (string \<times> nat) list" where
  "sorted_reverse items = rev (sort_key snd (rev items))"

definition top_values :: "string list \<Rightarrow> (string \<times> nat) list" where
  "top_values values = take 3 (sorted_reverse (value_counts_of values))"

fun most_common ::
  "string list \<Rightarrow> row_dict list \<Rightarrow> (string \<times> nat) list dict
     \<Rightarrow> py_exception + (string \<times> nat) list dict" where
  "most_common [] data acc = Inr acc"
| "most_common (col # cols) data acc =
     (case stripped_values col data of
        Inl e \<Rightarrow> Inl e
      | Inr values \<Rightarrow>
          most_common cols data (if values \<noteq> [] then dict_set col (top_values values) acc else acc))"

definition trends_of :: "string list \<Rightarrow> row_dict list \<Rightarrow> py_exception + trends" where
  "trends_of headers data =
     (case most_common headers data [] of
        Inl e \<Rightarrow> Inl e
      | Inr common \<Rightarrow>
          Inr \<lparr>most_common_values = common,
               empty_cells = length (filter (\<lambda>value. py_strip value = []) (all_values data)),
               total_cells = length data * length headers\<rparr>)"

text \<open>
  The part of \<open>analyze_sheet_data\<close> after the read: the generic fields, then the branch
  of the analysis type; an unknown type adds nothing. The data frame the code builds
  from the records is not used afterwards and is left out.
\<close>

definition analyze :: "string list \<Rightarrow> row_dict list \<Rightarrow> string \<Rightarrow> string \<Rightarrow> py_exception + analysis" where
  "analyze headers data kind range_text =
     (if kind = ''summary'' then
        Inr \<lparr>analysis_type = kind, analysis_range = range_text, total_rows = length data,
             total_columns = length headers, columns = headers,
             payload = Summary (summary_of headers data)\<rparr>
      else if kind = ''statistics'' then
        Inr \<lparr>analysis_type = kind, analysis_range = range_text, total_rows = length data,
             total_columns = length headers, columns = headers,
             payload = NumericStatistics (numeric_statistics headers data)\<rparr>
      else if kind = ''trends'' then
        (case trends_of headers data of
           Inl e \<Rightarrow> Inl e
         | Inr t \<Rightarrow>
             Inr \<lparr>analysis_type = kind, analysis_range = range_text, total_rows = length data,
                  total_columns = length headers, columns = headers, payload = Trends t\<rparr>)
      else
        Inr \<lparr>analysis_type = kind, analysis_range = range_text, total_rows = length data,
             total_columns = length headers, columns = headers, payload = NoPayload\<rparr>)"

text \<open>
  What the tool returns: the error of the read as it came, the error for a grid
  without structured data, the error of an exception in the analysis, or the analysis.
\<close>

datatype analyze_result =
    ReadError py_exception
  | NoStructuredData
  | AnalyzeFailed py_exception
  | Analyzed analysis


section \<open>The JSON text of an analysis\<close>

definition summary_json :: "summary \<Rightarrow> json" where
  "summary_json s =
     JObject [(''row_count'', JInt (int (row_count s))),
              (''column_count'', JInt (int (column_count s))),
              (''non_empty_cells'', JInt (int (non_empty_cells s))),
              (''sample_data'', JList (map json_row (sample_data s)))]"

definition col_stats_json :: "col_stats \<Rightarrow> json" where
  "col_stats_json c =
     JObject [(''count'', JInt (int (stat_count c))), (''mean'', JNumber (stat_mean c)),
              (''min'', JNumber (stat_min c)), (''max'', JNumber (stat_max c))]"

definition trends_json :: "trends \<Rightarrow> json" where
  "trends_json t =
     JObject [(''most_common_values'',
                 JObject (map (\<lambda>(col, top). (col, JList (map (\<lambda>(v, n). JList [JStr v, JInt (int n)]) top)))
                            (most_common_values t))),
              (''data_quality'',
                 JObject [(''empty_cells'', JInt (int (empty_cells t))),
                          (''total_cells'', JInt (int (total_cells t)))])]"

definition payload_json :: "payload \<Rightarrow> (string \<times> json) list" where
  "payload_json p =
     (case p of
        NoPayload \<Rightarrow> []
      | Summary s \<Rightarrow> [(''summary'', summary_json s)]
      | NumericStatistics n \<Rightarrow>
          [(''numeric_statistics'', JObject (map (\<lambda>(col, c). (col, col_stats_json c)) n))]
      | Trends t \<Rightarrow> [(''trends'', trends_json t)])"

definition analysis_json :: "analysis \<Rightarrow> json" where
  "analysis_json a =
     JObject ([(''analysis_type'', JStr (analysis_type a)), (''range'', JStr (analysis_range a)),
               (''total_rows'', JInt (int (total_rows a))),
               (''total_columns'', JInt (int (total_columns a))),
               (''columns'', json_strs (columns a))] @ payload_json (payload a))"

definition analyze_json :: "analyze_result \<Rightarrow> json" where
  "analyze_json r =
     (case r of
        ReadError e \<Rightarrow> read_json (ReadFailed e)
      | NoStructuredData \<Rightarrow>
          JObject [(''error'', JStr ''No structured data available for analysis'')]
      | AnalyzeFailed e \<Rightarrow> error_json ''Failed to analyze sheet data: '' e
      | Analyzed a \<Rightarrow> analysis_json a)"

section \<open>create_summary_report\<close>






section \<open>Columns of a record list\<close>

text \<open>
  \<open>has_column data col vals\<close>: every record has the key \<open>col\<close>, and \<open>vals\<close> are the
  values at that key, in record order.
\<close>

definition has_column :: "row_dict list \<Rightarrow> string \<Rightarrow> string list \<Rightarrow> bool" where
  "has_column data col vals = list_all2 (\<lambda>row v. dict_get row col = Some v) data vals"

text \<open>The position at which a value is first met in a list.\<close>

definition first_index :: "string list \<Rightarrow> string \<Rightarrow> nat" where
  "first_index values v = length (takeWhile (\<lambda>x. x \<noteq> v) values)"

text \<open>The trimmed, non-empty values of a column, in record order.\<close>

definition trimmed_values :: "string list \<Rightarrow> string list" where
  "trimmed_values vals = filter (\<lambda>v. v \<noteq> []) (map py_strip vals)"

text \<open>
  \<open>ranked_before values a b\<close>: the entry \<open>a\<close> comes before the entry \<open>b\<close> in the order of
  descending frequency, ties going to the value met first in \<open>values\<close>.
\<close>

definition ranked_before :: "string list \<Rightarrow> string \<times> nat \<Rightarrow> string \<times> nat \<Rightarrow> bool" where
  "ranked_before values a b =
     (snd b < snd a \<or> (snd a = snd b \<and> first_index values (fst a) < first_index values (fst b)))"

section \<open>Shapes of a tool response\<close>

text \<open>
  A failure response has an \<open>error\<close> field holding a message and no \<open>success\<close> field;
  a flagged success has \<open>success: true\<close> and no \<open>error\<close> field; a plain response has
  neither field.
\<close>

definition failure_response :: "json \<Rightarrow> bool" where
  "failure_response j =
     ((case json_get ''error'' j of Some (JStr msg) \<Rightarrow> True | _ \<Rightarrow> False)
      \<and> \<not> json_has ''success'' j)"


definition plain_response :: "json \<Rightarrow> bool" where
  "plain_response j = (\<not> json_has ''success'' j \<and> \<not> json_has ''error'' j)"


section \<open>Facts about dicts\<close>

lemma dict_keys_Nil: "dict_keys [] = []"
  by (simp add: dict_keys_def)

lemma dict_keys_set:
  "dict_keys (dict_set k v d) = (if k \<in> set (dict_keys d) then dict_keys d else dict_keys d @ [k])"
  by (induction d) (force simp: dict_keys_def)+

lemma dict_get_set: "dict_get (dict_set k v d) k' = (if k' = k then Some v else dict_get d k')"
  by (induction d) (auto simp: dict_get_def)

lemma distinct_keys_set: "distinct (dict_keys d) \<Longrightarrow> distinct (dict_keys (dict_set k v d))"
  by (simp add: dict_keys_set)

section \<open>Facts about the record builder\<close>

lemma fill_row_snoc:
  "fill_row row n (headers @ [h]) acc =
     dict_set h (cell_at row (n + length headers)) (fill_row row n headers acc)"
  by (simp add: fill_row_def enumerate_append_eq)

lemma fill_row_Nil: "fill_row row n [] acc = acc"
  by (simp add: fill_row_def)

lemma fill_row_keys_set:
  "set (dict_keys (fill_row row n headers acc)) = set (dict_keys acc) \<union> set headers"
  by (induction headers rule: rev_induct) (auto simp: fill_row_Nil fill_row_snoc dict_keys_set)

lemma fill_row_keys_distinct:
  "distinct (dict_keys acc) \<Longrightarrow> distinct (dict_keys (fill_row row n headers acc))"
  by (induction headers rule: rev_induct) (auto simp: fill_row_Nil fill_row_snoc distinct_keys_set)

lemma fill_row_keys_fresh:
  "distinct headers \<Longrightarrow> set headers \<inter> set (dict_keys acc) = {} \<Longrightarrow>
   dict_keys (fill_row row n headers acc) = dict_keys acc @ headers"
  by (induction headers rule: rev_induct)
     (auto simp: fill_row_Nil fill_row_snoc dict_keys_set fill_row_keys_set)

text \<open>The value at a header is the cell of the last column that bears the name.\<close>

lemma fill_row_get_last:
  "j < length headers \<Longrightarrow> \<forall>k. j < k \<and> k < length headers \<longrightarrow> headers ! k \<noteq> headers ! j \<Longrightarrow>
   dict_get (fill_row row n headers acc) (headers ! j) = Some (cell_at row (n + j))"
proof (induction headers rule: rev_induct)
  case Nil
  then show ?case by simp
next
  case (snoc h headers)
  show ?case
  proof (cases "j = length headers")
    case True
    then show ?thesis by (simp add: fill_row_snoc dict_get_set)
  next
    case False
    with snoc.prems(1) have j: "j < length headers" by simp
    have later: "\<forall>k. j < k \<and> k < length headers \<longrightarrow> headers ! k \<noteq> headers ! j"
    proof (intro allI impI)
      fix k assume k: "j < k \<and> k < length headers"
      then have "(headers @ [h]) ! k \<noteq> (headers @ [h]) ! j"
        using snoc.prems(2) by simp
      with k j show "headers ! k \<noteq> headers ! j" by (simp add: nth_append)
    qed
    have "j < length headers \<and> length headers < length (headers @ [h])"
      using j by simp
    then have "(headers @ [h]) ! length headers \<noteq> (headers @ [h]) ! j"
      using snoc.prems(2) by blast
    then have "h \<noteq> headers ! j" using j by (simp add: nth_append)
    then show ?thesis
      using snoc.IH [OF j later] j by (simp add: fill_row_snoc dict_get_set nth_append)
  qed
qed

lemma fill_row_take:
  "fill_row (take (n + length headers) row) n headers acc = fill_row row n headers acc"
proof (induction headers arbitrary: row rule: rev_induct)
  case Nil
  then show ?case by (simp add: fill_row_Nil)
next
  case (snoc h headers)
  have "fill_row (take (n + length (headers @ [h])) row) n headers acc =
        fill_row (take (n + length headers) (take (n + length (headers @ [h])) row)) n headers acc"
    using snoc.IH [of "take (n + length (headers @ [h])) row"] by simp
  also have "\<dots> = fill_row row n headers acc"
    using snoc.IH [of row] by (simp add: min_def)
  finally show ?case
    by (simp add: fill_row_snoc cell_at_def)
qed

lemma structured_two_rows:
  "2 \<le> length grid \<Longrightarrow> structured grid = Some (hd grid, build_records (hd grid) (tl grid))"
  by (cases grid; cases "tl grid") (auto simp: structured_def)

lemma build_records_nth:
  "i < length data_rows \<Longrightarrow> build_records headers data_rows ! i = build_row headers (data_rows ! i)"
  by (simp add: build_records_def)

lemma build_row_keys_distinct: "distinct (dict_keys (build_row headers row))"
  by (simp add: build_row_def fill_row_keys_distinct dict_keys_Nil)

lemma build_row_keys_set: "set (dict_keys (build_row headers row)) = set headers"
  by (simp add: build_row_def fill_row_keys_set dict_keys_Nil)

lemma build_row_get_last:
  "j < length headers \<Longrightarrow> \<forall>k. j < k \<and> k < length headers \<longrightarrow> headers ! k \<noteq> headers ! j \<Longrightarrow>
   dict_get (build_row headers row) (headers ! j) = Some (cell_at row j)"
  using fill_row_get_last [of j headers row 0 "[]"] by (simp add: build_row_def)

lemma build_row_take: "build_row headers (take (length headers) row) = build_row headers row"
  using fill_row_take [of 0 headers row "[]"] by (simp add: build_row_def)

lemma build_row_keys_of_distinct: "distinct headers \<Longrightarrow> dict_keys (build_row headers row) = headers"
  using fill_row_keys_fresh [of headers "[]" row 0] by (simp add: build_row_def dict_keys_Nil)

section \<open>The record builder: keys and values\<close>

text \<open>
  C1 (as stated): every record of a grid with at least two rows has exactly
  \<open>|headers|\<close> keys, and \<open>record[i][headers[j]]\<close> is the cell \<open>grid[i+1][j]\<close>.
  With the header row \<open>a, a\<close> and the data row \<open>1, 2\<close> the code builds the record
  \<open>{a: 2}\<close>: one key for two headers, and the value at \<open>headers[0]\<close> is \<open>2\<close>, not the
  cell \<open>1\<close> of column 0.
\<close>

theorem build_records_duplicate_header_counterexample:
  "structured [[''a'', ''a''], [''1'', ''2'']] = Some ([''a'', ''a''], [[(''a'', ''2'')]])
   \<and> length (dict_keys [(''a'', ''2'')]) \<noteq> length [''a'', ''a'']
   \<and> dict_get [(''a'', ''2'')] ([''a'', ''a''] ! 0)
       \<noteq> Some (cell_at ([[''a'', ''a''], [''1'', ''2'']] ! 1) 0)"
  by (simp add: structured_def build_records_def build_row_def fill_row_def
      dict_keys_def dict_get_def cell_at_def)

text \<open>
  C1 (amended): for every grid with at least two rows whose header names are pairwise
  distinct, the record builder yields \<open>|grid| - 1\<close> records in sheet-row order; the keys
  of each record are the headers, in header order; \<open>record[i][headers[j]]\<close> is the cell
  \<open>grid[i+1][j]\<close> when the row has that index and the empty string otherwise; and the
  record is the one built from the first \<open>|headers|\<close> cells of the row alone, so cells
  beyond the header count do not appear in it.
\<close>

theorem build_records_distinct_headers:
  assumes "2 \<le> length grid" and "distinct (hd grid)"
  shows "\<exists>records. structured grid = Some (hd grid, records)
           \<and> length records = length grid - 1
           \<and> (\<forall>i < length records.
                 dict_keys (records ! i) = hd grid
               \<and> (\<forall>j < length (hd grid).
                     dict_get (records ! i) (hd grid ! j) = Some (cell_at (grid ! (i + 1)) j))
               \<and> records ! i = build_row (hd grid) (take (length (hd grid)) (grid ! (i + 1))))"
proof -
  let ?headers = "hd grid"
  let ?records = "build_records ?headers (tl grid)"
  have len: "length ?records = length grid - 1"
    by (simp add: build_records_def)
  have each: "dict_keys (?records ! i) = ?headers
      \<and> (\<forall>j < length ?headers.
            dict_get (?records ! i) (?headers ! j) = Some (cell_at (grid ! (i + 1)) j))
      \<and> ?records ! i = build_row ?headers (take (length ?headers) (grid ! (i + 1)))"
    if i: "i < length ?records" for i
  proof -
    from i have i': "i < length (tl grid)" by (simp add: build_records_def)
    then have row: "tl grid ! i = grid ! (i + 1)"
      by (cases grid) simp_all
    have rec: "?records ! i = build_row ?headers (grid ! (i + 1))"
      using build_records_nth [OF i'] row by simp
    have "dict_get (build_row ?headers (grid ! (i + 1))) (?headers ! j)
            = Some (cell_at (grid ! (i + 1)) j)" if "j < length ?headers" for j
      using that assms(2) by (intro build_row_get_last) (auto simp: nth_eq_iff_index_eq)
    then show ?thesis
      using rec assms(2) by (simp add: build_row_keys_of_distinct build_row_take)
  qed
  show ?thesis
    using structured_two_rows [OF assms(1)] len each by blast
qed

theorem build_records_distinct_headers_witness:
  "2 \<le> length [[''a'', ''b''], [''1''], [''2'', ''3'', ''4'']]
   \<and> distinct (hd [[''a'', ''b''], [''1''], [''2'', ''3'', ''4'']])
   \<and> structured [[''a'', ''b''], [''1''], [''2'', ''3'', ''4'']]
       = Some ([''a'', ''b''], [[(''a'', ''1''), (''b'', [])], [(''a'', ''2''), (''b'', ''3'')]])
   \<and> (\<exists>records. structured [[''a'', ''b''], [''1''], [''2'', ''3'', ''4'']]
          = Some ([''a'', ''b''], records) \<and> length records = 2)"
  using build_records_distinct_headers [of "[[''a'', ''b''], [''1''], [''2'', ''3'', ''4'']]"]
  by (simp add: structured_def build_records_def build_row_def fill_row_def cell_at_def)

text \<open>
  C10: when the header row of a grid with at least two rows repeats a name, every record
  has exactly one key per distinct header name (its keys are pairwise distinct and are
  the set of header names), hence fewer keys than there are headers, and the value at a
  name is the cell of the last column that bears the name, the empty string when the
  row has no cell there.
\<close>

theorem build_records_duplicate_headers:
  assumes "2 \<le> length grid" and "\<not> distinct (hd grid)"
  shows "\<exists>records. structured grid = Some (hd grid, records)
           \<and> length records = length grid - 1
           \<and> (\<forall>i < length records.
                 distinct (dict_keys (records ! i))
               \<and> set (dict_keys (records ! i)) = set (hd grid)
               \<and> length (dict_keys (records ! i)) = card (set (hd grid))
               \<and> length (dict_keys (records ! i)) < length (hd grid)
               \<and> (\<forall>j < length (hd grid).
                     (\<forall>k. j < k \<and> k < length (hd grid) \<longrightarrow> hd grid ! k \<noteq> hd grid ! j) \<longrightarrow>
                     dict_get (records ! i) (hd grid ! j) = Some (cell_at (grid ! (i + 1)) j)))"
proof -
  let ?headers = "hd grid"
  let ?records = "build_records ?headers (tl grid)"
  have len: "length ?records = length grid - 1"
    by (simp add: build_records_def)
  have fewer: "card (set ?headers) < length ?headers"
    using assms(2) card_distinct [of ?headers] card_length [of ?headers]
    by (cases "card (set ?headers) = length ?headers") auto
  have each: "distinct (dict_keys (?records ! i))
      \<and> set (dict_keys (?records ! i)) = set ?headers
      \<and> length (dict_keys (?records ! i)) = card (set ?headers)
      \<and> length (dict_keys (?records ! i)) < length ?headers
      \<and> (\<forall>j < length ?headers.
            (\<forall>k. j < k \<and> k < length ?headers \<longrightarrow> ?headers ! k \<noteq> ?headers ! j) \<longrightarrow>
            dict_get (?records ! i) (?headers ! j) = Some (cell_at (grid ! (i + 1)) j))"
    if i: "i < length ?records" for i
  proof -
    from i have i': "i < length (tl grid)" by (simp add: build_records_def)
    then have row: "tl grid ! i = grid ! (i + 1)"
      by (cases grid) simp_all
    have rec: "?records ! i = build_row ?headers (grid ! (i + 1))"
      using build_records_nth [OF i'] row by simp
    have card: "length (dict_keys (build_row ?headers (grid ! (i + 1)))) = card (set ?headers)"
      using distinct_card [OF build_row_keys_distinct, of ?headers "grid ! (i + 1)"]
      by (simp add: build_row_keys_set)
    show ?thesis
      using rec card fewer
      by (simp add: build_row_keys_distinct build_row_keys_set build_row_get_last)
  qed
  show ?thesis
    using structured_two_rows [OF assms(1)] len each by blast
qed

theorem build_records_duplicate_headers_witness:
  "2 \<le> length [[''a'', ''b'', ''a''], [''1'', ''2'', ''3''], [''4'']]
   \<and> \<not> distinct (hd [[''a'', ''b'', ''a''], [''1'', ''2'', ''3''], [''4'']])
   \<and> structured [[''a'', ''b'', ''a''], [''1'', ''2'', ''3''], [''4'']]
       = Some ([''a'', ''b'', ''a''],
               [[(''a'', ''3''), (''b'', ''2'')], [(''a'', []), (''b'', [])]])
   \<and> (\<exists>records. structured [[''a'', ''b'', ''a''], [''1'', ''2'', ''3''], [''4'']]
          = Some ([''a'', ''b'', ''a''], records) \<and> length records = 2)"
  using build_records_duplicate_headers [of "[[''a'', ''b'', ''a''], [''1'', ''2'', ''3''], [''4'']]"]
  by (simp add: structured_def build_records_def build_row_def fill_row_def cell_at_def)

section \<open>Facts about the trends analysis\<close>

lemma has_column_Nil: "has_column [] col vals \<longleftrightarrow> vals = []"
  by (simp add: has_column_def)

lemma has_column_Cons:
  "has_column (row # rows) col vals \<longleftrightarrow>
     (\<exists>v vs. vals = v # vs \<and> dict_get row col = Some v \<and> has_column rows col vs)"
  by (auto simp: has_column_def list_all2_Cons1)

lemma stripped_values_column:
  "has_column data col vals \<Longrightarrow>
   stripped_values col data = Inr (filter (\<lambda>v. v \<noteq> []) (map py_strip vals))"
  by (induction data arbitrary: vals) (auto simp: has_column_Nil has_column_Cons row_item_def)

lemma most_common_get_other:
  "most_common cols data acc = Inr common \<Longrightarrow> col \<notin> set cols \<Longrightarrow>
   dict_get common col = dict_get acc col"
  by (induction cols arbitrary: acc) (auto simp: dict_get_set split: sum.splits if_splits)

lemma most_common_get_empty:
  "most_common cols data acc = Inr common \<Longrightarrow> stripped_values col data = Inr [] \<Longrightarrow>
   dict_get common col = dict_get acc col"
  by (induction cols arbitrary: acc) (auto simp: dict_get_set split: sum.splits if_splits)

lemma most_common_get:
  "most_common cols data acc = Inr common \<Longrightarrow> col \<in> set cols \<Longrightarrow>
   stripped_values col data = Inr values \<Longrightarrow> values \<noteq> [] \<Longrightarrow>
   dict_get common col = Some (top_values values)"
proof (induction cols arbitrary: acc)
  case Nil
  then show ?case by simp
next
  case (Cons c cols)
  show ?case
  proof (cases "col \<in> set cols")
    case True
    with Cons show ?thesis by (auto split: sum.splits)
  next
    case False
    with Cons.prems have c: "c = col" by simp
    from Cons.prems c have "most_common cols data (dict_set col (top_values values) acc) = Inr common"
      by simp
    from most_common_get_other [OF this False] show ?thesis
      by (simp add: dict_get_set)
  qed
qed


lemma dict_get_None_keys: "dict_get d k = None \<longleftrightarrow> k \<notin> set (dict_keys d)"
  by (simp add: dict_get_def dict_keys_def map_of_eq_None_iff)





section \<open>The trends analysis: columns without values\<close>

text \<open>
  C3 (as stated): a header column whose values are all empty after trimming still appears
  in \<open>most_common_values\<close>, mapped to an empty list. For the header \<open>A\<close> and one data
  row holding two blanks, the trends analysis returns an empty \<open>most_common_values\<close>
  dict: the column has no entry at all, so it is not mapped to the empty list.
\<close>

theorem trends_blank_column_counterexample:
  "trends_of [''A''] (build_records [''A''] [[''  '']])
     = Inr \<lparr>most_common_values = [], empty_cells = 1, total_cells = 1\<rparr>
   \<and> has_column (build_records [''A''] [[''  '']]) ''A'' [''  '']
   \<and> py_strip ''  '' = []
   \<and> dict_get ([] :: (string \<times> nat) list dict) ''A'' \<noteq> Some []"
  by (simp add: trends_of_def build_records_def build_row_def fill_row_def cell_at_def
      row_item_def dict_get_def has_column_def py_strip_def py_isspace_def all_values_def
      dict_values_def)

text \<open>
  C3 (amended): in the trends analysis, a column whose values are all empty after
  trimming is omitted from \<open>most_common_values\<close>: the dict has no entry for it (the
  assignment is guarded by \<open>if values\<close>).
\<close>

theorem trends_blank_column_omitted:
  assumes "trends_of headers data = Inr t"
    and "has_column data col vals"
    and "\<forall>v \<in> set vals. py_strip v = []"
  shows "dict_get (most_common_values t) col = None \<and> col \<notin> set (dict_keys (most_common_values t))"
proof -
  from assms(1) obtain common where common: "most_common headers data [] = Inr common"
    and t: "most_common_values t = common"
    by (auto simp: trends_of_def split: sum.splits)
  have "filter (\<lambda>v. v \<noteq> []) (map py_strip vals) = []"
    using assms(3) by (simp add: filter_empty_conv)
  with stripped_values_column [OF assms(2)] have "stripped_values col data = Inr []" by simp
  from most_common_get_empty [OF common this] have "dict_get common col = None"
    by (simp add: dict_get_def)
  with t show ?thesis by (simp add: dict_get_None_keys)
qed

theorem trends_blank_column_omitted_witness:
  "trends_of [''A'', ''B''] (build_records [''A'', ''B''] [[''x'', ''  ''], [''y'']])
     = Inr \<lparr>most_common_values = [(''A'', [(''x'', 1), (''y'', 1)])], empty_cells = 2, total_cells = 4\<rparr>
   \<and> has_column (build_records [''A'', ''B''] [[''x'', ''  ''], [''y'']]) ''B'' [''  '', []]
   \<and> py_strip ''  '' = [] \<and> py_strip [] = []
   \<and> dict_get [(''A'', [(''x'', 1 :: nat), (''y'', 1)])] ''B'' = None"
  using trends_blank_column_omitted [of "[''A'', ''B'']"
      "build_records [''A'', ''B''] [[''x'', ''  ''], [''y'']]"
      "\<lparr>most_common_values = [(''A'', [(''x'', 1), (''y'', 1)])], empty_cells = 2, total_cells = 4\<rparr>"
      "''B''" "[''  '', []]"]
  by (simp add: trends_of_def build_records_def build_row_def fill_row_def cell_at_def
      row_item_def dict_get_def has_column_def py_strip_def py_isspace_def all_values_def
      dict_values_def top_values_def sorted_reverse_def value_counts_of_def count_step_def
      get_default_def)

section \<open>Facts about the tool responses\<close>




lemma error_json_failure: "failure_response (error_json prefix e)"
  by (simp add: failure_response_def error_json_def json_get_def json_has_def)

lemma analysis_json_plain: "plain_response (analysis_json a)"
  by (cases "payload a")
     (simp_all add: plain_response_def analysis_json_def payload_json_def json_has_def)

lemma read_json_failed: "failure_response (read_json (ReadFailed e))"
  by (simp add: read_json_def error_json_failure)





lemma analyze_json_shape:
  "failure_response (analyze_json r) \<or> plain_response (analyze_json r)"
  by (cases r) (simp_all add: analyze_json_def read_json_failed error_json_failure analysis_json_plain,
      simp add: failure_response_def json_get_def json_has_def)












section \<open>Analysis of a grid without structured data\<close>



section \<open>The shape of the tool responses\<close>




section \<open>Facts about the report\<close>











section \<open>The report grid\<close>





section \<open>Facts about the statistics analysis\<close>

lemma float_values_raises:
  "has_column data col vals \<Longrightarrow> \<exists>v \<in> set vals. numeric_eligible v \<and> py_float v = None \<Longrightarrow>
   \<exists>e. float_values col data = Inl e"
proof (induction data arbitrary: vals)
  case Nil
  then show ?case by (simp add: has_column_Nil)
next
  case (Cons row data)
  from Cons.prems(1) obtain v vs where vals: "vals = v # vs" and v: "dict_get row col = Some v"
    and vs: "has_column data col vs" by (auto simp: has_column_Cons)
  show ?case
  proof (cases "numeric_eligible v \<and> py_float v = None")
    case True
    then show ?thesis using v by (simp add: row_item_def)
  next
    case False
    with Cons.prems(2) vals have "\<exists>v \<in> set vs. numeric_eligible v \<and> py_float v = None" by auto
    from Cons.IH [OF vs this] obtain e where "float_values col data = Inl e" ..
    then show ?thesis using v by (auto simp: row_item_def split: option.splits)
  qed
qed

lemma float_values_parsed:
  "has_column data col vals \<Longrightarrow> map Some xs = map py_float (filter numeric_eligible vals) \<Longrightarrow>
   float_values col data = Inr xs"
proof (induction data arbitrary: vals xs)
  case Nil
  then show ?case by (simp add: has_column_Nil)
next
  case (Cons row data)
  from Cons.prems(1) obtain v vs where vals: "vals = v # vs" and v: "dict_get row col = Some v"
    and vs: "has_column data col vs" by (auto simp: has_column_Cons)
  show ?case
  proof (cases "numeric_eligible v")
    case True
    with Cons.prems(2) vals obtain x xs' where xs: "xs = x # xs'" and x: "py_float v = Some x"
      and rest: "map Some xs' = map py_float (filter numeric_eligible vs)"
      by (cases xs) auto
    from Cons.IH [OF vs rest] show ?thesis using v True x xs by (simp add: row_item_def)
  next
    case False
    with Cons.prems(2) vals have "map Some xs = map py_float (filter numeric_eligible vs)" by simp
    from Cons.IH [OF vs this] show ?thesis using v False by (simp add: row_item_def)
  qed
qed

text \<open>The entry of one column, as \<open>numeric_step\<close> computes it.\<close>

lemma numeric_step_get:
  "dict_get (numeric_step data h acc) col =
     (if col = h then
        (case float_values h data of
           Inr (v # vs) \<Rightarrow>
             Some \<lparr>stat_count = length (v # vs),
                   stat_mean = foldl (+) 0 (v # vs) / of_nat (length (v # vs)),
                   stat_min = foldl min v vs, stat_max = foldl max v vs\<rparr>
         | _ \<Rightarrow> dict_get acc col)
      else dict_get acc col)"
  by (auto simp: numeric_step_def dict_get_set split: sum.splits list.splits)

lemma numeric_statistics_snoc:
  "numeric_statistics (headers @ [h]) data = numeric_step data h (numeric_statistics headers data)"
  by (simp add: numeric_statistics_def)

lemma numeric_statistics_get:
  "dict_get (numeric_statistics headers data) col =
     (if col \<in> set headers then
        (case float_values col data of
           Inr (v # vs) \<Rightarrow>
             Some \<lparr>stat_count = length (v # vs),
                   stat_mean = foldl (+) 0 (v # vs) / of_nat (length (v # vs)),
                   stat_min = foldl min v vs, stat_max = foldl max v vs\<rparr>
         | _ \<Rightarrow> None)
      else None)"
proof (induction headers rule: rev_induct)
  case Nil
  then show ?case by (simp add: numeric_statistics_def dict_get_def)
next
  case (snoc h headers)
  show ?case
  proof (cases "col = h")
    case False
    with snoc show ?thesis by (simp add: numeric_statistics_snoc numeric_step_get)
  next
    case True
    show ?thesis
    proof (cases "float_values h data")
      case (Inl e)
      with True snoc show ?thesis by (simp add: numeric_statistics_snoc numeric_step_get)
    next
      case (Inr xs)
      with True snoc show ?thesis
        by (cases xs) (simp_all add: numeric_statistics_snoc numeric_step_get)
    qed
  qed
qed




lemma numeric_statistics_absent:
  assumes "has_column data col vals"
    and "filter numeric_eligible vals = [] \<or> (\<exists>v \<in> set vals. numeric_eligible v \<and> py_float v = None)"
  shows "dict_get (numeric_statistics headers data) col = None"
proof -
  have "(\<exists>e. float_values col data = Inl e) \<or> float_values col data = Inr []"
  proof (cases "filter numeric_eligible vals = []")
    case True
    then have "map Some [] = map py_float (filter numeric_eligible vals)" by simp
    from float_values_parsed [OF assms(1) this] show ?thesis by simp
  next
    case False
    with assms(2) float_values_raises [OF assms(1)] show ?thesis by simp
  qed
  then show ?thesis by (auto simp: numeric_statistics_get)
qed



lemmas cell_eval =
  numeric_eligible_def py_isdigit_def py_remove_def digit_char_def ascii_digit_def
  py_float_def unsigned_value_def decimal_value_def digit_value_def

lemmas record_eval =
  build_records_def build_row_def fill_row_def cell_at_def has_column_def dict_get_def

lemmas statistics_eval =
  numeric_statistics_def numeric_step_def row_item_def

section \<open>The statistics analysis\<close>




text \<open>
  C4 (as stated): an eligible value that fails to parse is the only value left out, and
  the other eligible values of its column are still counted. In the column \<open>7, --5\<close>
  both values are eligible, \<open>float("7")\<close> is 7 and \<open>float("--5")\<close> raises; the result has
  no entry for the column, so the value 7 is not counted either.
\<close>

theorem statistics_parse_failure_counterexample:
  "numeric_eligible ''7'' \<and> py_float ''7'' = Some 7
   \<and> numeric_eligible ''--5'' \<and> py_float ''--5'' = None
   \<and> has_column (build_records [''c''] [[''7''], [''--5'']]) ''c'' [''7'', ''--5'']
   \<and> numeric_statistics [''c''] (build_records [''c''] [[''7''], [''--5'']]) = []"
  by (simp add: cell_eval record_eval statistics_eval)

text \<open>
  C4 (amended): when a column holds a value that passes the eligibility test and that
  \<open>float\<close> rejects, the whole column is left out of \<open>numeric_statistics\<close>, silently;
  the entries of the other columns are what they are without that column, and the
  analysis as a whole does not fail: it returns its result with the statistics of the
  other columns.
\<close>

theorem statistics_parse_failure_omits_column:
  assumes "has_column data col vals"
    and "v \<in> set vals" and "numeric_eligible v" and "py_float v = None"
  shows "dict_get (numeric_statistics headers data) col = None
     \<and> col \<notin> set (dict_keys (numeric_statistics headers data))
     \<and> (\<forall>other. other \<noteq> col \<longrightarrow>
          dict_get (numeric_statistics headers data) other
            = dict_get (numeric_statistics (filter (\<lambda>h. h \<noteq> col) headers) data) other)
     \<and> analyze headers data ''statistics'' range_text =
          Inr \<lparr>analysis_type = ''statistics'', analysis_range = range_text,
               total_rows = length data, total_columns = length headers, columns = headers,
               payload = NumericStatistics (numeric_statistics headers data)\<rparr>"
proof -
  have "\<exists>v \<in> set vals. numeric_eligible v \<and> py_float v = None"
    using assms(2-4) by blast
  then have absent: "dict_get (numeric_statistics headers data) col = None"
    using numeric_statistics_absent [OF assms(1)] by blast
  have others: "dict_get (numeric_statistics headers data) other
      = dict_get (numeric_statistics (filter (\<lambda>h. h \<noteq> col) headers) data) other"
    if "other \<noteq> col" for other
    using that by (simp add: numeric_statistics_get)
  show ?thesis
    using absent others by (simp add: dict_get_None_keys analyze_def)
qed

theorem statistics_parse_failure_omits_column_witness:
  "has_column (build_records [''a'', ''b''] [[''7'', ''1''], [''--5'', ''2'']]) ''a'' [''7'', ''--5'']
   \<and> ''--5'' \<in> set [''7'', ''--5''] \<and> numeric_eligible ''--5'' \<and> py_float ''--5'' = None
   \<and> numeric_statistics [''a'', ''b''] (build_records [''a'', ''b''] [[''7'', ''1''], [''--5'', ''2'']])
      = [(''b'', \<lparr>stat_count = 2, stat_mean = 3 / 2, stat_min = 1, stat_max = 2\<rparr>)]
   \<and> dict_get (numeric_statistics [''a'', ''b'']
        (build_records [''a'', ''b''] [[''7'', ''1''], [''--5'', ''2'']])) ''a'' = None"
  using statistics_parse_failure_omits_column [of
      "build_records [''a'', ''b''] [[''7'', ''1''], [''--5'', ''2'']]" "''a''" "[''7'', ''--5'']"
      "''--5''" "[''a'', ''b'']" "''Sheet1!A1:B3''"]
  by (simp add: cell_eval record_eval statistics_eval)

section \<open>Facts about counting and ranking\<close>

lemma value_counts_snoc:
  "value_counts_of (xs @ [v]) = count_step v (value_counts_of xs)"
  by (simp add: value_counts_of_def)

lemma value_counts_keys_set: "set (dict_keys (value_counts_of xs)) = set xs"
  by (induction xs rule: rev_induct)
     (auto simp: value_counts_of_def count_step_def dict_keys_set dict_keys_Nil)

lemma value_counts_keys_distinct: "distinct (dict_keys (value_counts_of xs))"
  by (induction xs rule: rev_induct)
     (auto simp: value_counts_of_def count_step_def dict_keys_set dict_keys_Nil)

lemma value_counts_get:
  "dict_get (value_counts_of xs) w
     = (if w \<in> set xs then Some (count_list xs w) else None)"
proof (induction xs rule: rev_induct)
  case Nil
  then show ?case by (simp add: value_counts_of_def dict_get_def)
next
  case (snoc v xs)
  then show ?case
    by (auto simp: value_counts_snoc count_step_def dict_get_set get_default_def)
qed

lemma first_index_snoc_old:
  "a \<in> set xs \<Longrightarrow> first_index (xs @ [v]) a = first_index xs a"
  by (simp add: first_index_def takeWhile_append1)

lemma first_index_less: "a \<in> set xs \<Longrightarrow> first_index xs a < length xs"
  unfolding first_index_def
  by (induction xs) auto

lemma first_index_snoc_new:
  "v \<notin> set xs \<Longrightarrow> first_index (xs @ [v]) v = length xs"
  unfolding first_index_def by (induction xs) auto

lemma value_counts_keys_order:
  "sorted_wrt (\<lambda>a b. first_index xs a < first_index xs b)
     (dict_keys (value_counts_of xs))"
proof (induction xs rule: rev_induct)
  case Nil
  then show ?case by (simp add: value_counts_of_def dict_keys_Nil)
next
  case (snoc v xs)
  let ?keys = "dict_keys (value_counts_of xs)"
  have old: "sorted_wrt (\<lambda>a b. first_index (xs @ [v]) a < first_index (xs @ [v]) b) ?keys"
    using snoc
    by (rule sorted_wrt_mono_rel [rotated])
       (simp add: value_counts_keys_set first_index_snoc_old)
  show ?case
  proof (cases "v \<in> set xs")
    case True
    then show ?thesis
      using old by (simp add: value_counts_snoc count_step_def dict_keys_set value_counts_keys_set)
  next
    case False
    have "first_index (xs @ [v]) a < first_index (xs @ [v]) v" if "a \<in> set ?keys" for a
      using that False
      by (simp add: value_counts_keys_set first_index_snoc_old first_index_snoc_new first_index_less)
    then show ?thesis
      using old False
      by (simp add: value_counts_snoc count_step_def dict_keys_set value_counts_keys_set
          sorted_wrt_append)
  qed
qed

text \<open>A stable sort refines a given order by the key.\<close>

lemma insort_key_refines:
  fixes f :: "'a \<Rightarrow> nat"
  assumes "sorted_wrt (\<lambda>a b. f a < f b \<or> (f a = f b \<and> Q a b)) zs"
    and "\<forall>z \<in> set zs. Q y z"
  shows "sorted_wrt (\<lambda>a b. f a < f b \<or> (f a = f b \<and> Q a b)) (insort_key f y zs)"
  using assms
proof (induction zs)
  case Nil
  then show ?case by simp
next
  case (Cons z zs)
  show ?case
  proof (cases "f y \<le> f z")
    case True
    have "f y < f w \<or> (f y = f w \<and> Q y w)" if "w \<in> set (z # zs)" for w
    proof -
      have "f z \<le> f w" using that Cons.prems(1) by auto
      with True have "f y \<le> f w" by simp
      moreover have "Q y w" using that Cons.prems(2) by auto
      ultimately show ?thesis by auto
    qed
    with True Cons.prems(1) show ?thesis by simp
  next
    case False
    have "sorted_wrt (\<lambda>a b. f a < f b \<or> (f a = f b \<and> Q a b)) (insort_key f y zs)"
      using Cons by simp
    with False Cons.prems(1) show ?thesis by (auto simp: set_insort_key)
  qed
qed

lemma sort_key_refines:
  fixes f :: "'a \<Rightarrow> nat"
  shows "sorted_wrt Q ys \<Longrightarrow> sorted_wrt (\<lambda>a b. f a < f b \<or> (f a = f b \<and> Q a b)) (sort_key f ys)"
proof (induction ys)
  case Nil
  then show ?case by simp
next
  case (Cons y ys)
  then have "sorted_wrt (\<lambda>a b. f a < f b \<or> (f a = f b \<and> Q a b)) (sort_key f ys)"
    and "\<forall>z \<in> set (sort_key f ys). Q y z" by simp_all
  then show ?case by (simp add: insort_key_refines)
qed

lemma sorted_reverse_refines:
  assumes "sorted_wrt Q items"
  shows "sorted_wrt (\<lambda>a b. snd b < snd a \<or> (snd a = snd b \<and> Q a b)) (sorted_reverse items)"
proof -
  have "sorted_wrt (\<lambda>a b. Q b a) (rev items)"
    using assms by (simp add: sorted_wrt_rev)
  then have "sorted_wrt (\<lambda>a b. snd a < snd b \<or> (snd a = snd b \<and> Q b a)) (sort_key snd (rev items))"
    by (rule sort_key_refines)
  then have "sorted_wrt (\<lambda>a b. snd b < snd a \<or> (snd b = snd a \<and> Q a b)) (sorted_reverse items)"
    by (simp add: sorted_reverse_def sorted_wrt_rev)
  then show ?thesis
    by (rule sorted_wrt_mono_rel [rotated]) auto
qed

lemma sorted_reverse_set: "set (sorted_reverse items) = set items"
  by (simp add: sorted_reverse_def)

lemma sorted_reverse_length: "length (sorted_reverse items) = length items"
  by (simp add: sorted_reverse_def)

lemma sorted_reverse_keys_distinct:
  assumes "distinct (map fst items)"
  shows "distinct (map fst (sorted_reverse items))"
proof -
  have "card (set (map fst (sorted_reverse items))) = card (set (map fst items))"
    by (simp add: sorted_reverse_set)
  also have "\<dots> = length (map fst items)"
    using assms by (rule distinct_card)
  also have "\<dots> = length (map fst (sorted_reverse items))"
    by (simp add: sorted_reverse_length)
  finally show ?thesis by (rule card_distinct)
qed

lemma value_counts_entry:
  assumes "entry \<in> set (value_counts_of xs)"
  shows "snd entry = count_list xs (fst entry)"
proof -
  have "distinct (map fst (value_counts_of xs))"
    using value_counts_keys_distinct [of xs] by (simp add: dict_keys_def)
  with assms have "map_of (value_counts_of xs) (fst entry) = Some (snd entry)"
    by (intro map_of_is_SomeI) simp_all
  with value_counts_get [of xs "fst entry"] show ?thesis
    by (simp add: dict_get_def split: if_splits)
qed

lemma value_counts_order:
  "sorted_wrt (\<lambda>a b. first_index xs (fst a) < first_index xs (fst b)) (value_counts_of xs)"
  using value_counts_keys_order [of xs] by (simp add: dict_keys_def sorted_wrt_map)

lemma sorted_reverse_ranked:
  "sorted_wrt (ranked_before xs) (sorted_reverse (value_counts_of xs))"
proof -
  have "ranked_before xs
      = (\<lambda>a b. snd b < snd a
           \<or> (snd a = snd b \<and> first_index xs (fst a) < first_index xs (fst b)))"
    by (intro ext) (simp add: ranked_before_def)
  then show ?thesis
    using sorted_reverse_refines [OF value_counts_order [of xs]] by simp
qed

lemma top_values_ranked:
  "\<exists>ranked. top_values xs = take 3 ranked
     \<and> distinct (map fst ranked)
     \<and> set (map fst ranked) = set xs
     \<and> (\<forall>entry \<in> set ranked. snd entry = count_list xs (fst entry))
     \<and> sorted_wrt (ranked_before xs) ranked"
proof (intro exI [of _ "sorted_reverse (value_counts_of xs)"] conjI ballI)
  show "top_values xs = take 3 (sorted_reverse (value_counts_of xs))"
    by (simp add: top_values_def)
  show "distinct (map fst (sorted_reverse (value_counts_of xs)))"
    using value_counts_keys_distinct [of xs]
    by (intro sorted_reverse_keys_distinct) (simp add: dict_keys_def)
  show "set (map fst (sorted_reverse (value_counts_of xs))) = set xs"
    using value_counts_keys_set [of xs] by (simp add: sorted_reverse_set dict_keys_def)
  show "snd entry = count_list xs (fst entry)"
    if "entry \<in> set (sorted_reverse (value_counts_of xs))" for entry
    using that by (simp add: sorted_reverse_set value_counts_entry)
  show "sorted_wrt (ranked_before xs) (sorted_reverse (value_counts_of xs))"
    by (rule sorted_reverse_ranked)
qed

lemmas trends_eval =
  trends_of_def build_records_def build_row_def fill_row_def cell_at_def row_item_def
  dict_get_def has_column_def py_strip_def py_isspace_def all_values_def dict_values_def
  top_values_def sorted_reverse_def value_counts_of_def count_step_def get_default_def
  trimmed_values_def

section \<open>The trends analysis: most common values\<close>

text \<open>
  C5: for every column with a non-empty trimmed value, the entry of the column in
  \<open>most_common_values\<close> is the first three entries (all of them when there are fewer)
  of the list that holds each distinct trimmed non-empty value once, with the number of
  its occurrences, sorted by descending frequency, a tie going to the value met first
  in record order. The column \<open>a, b, a, c, a, b\<close> gives \<open>[(a, 3), (b, 2), (c, 1)]\<close>.
\<close>

theorem trends_most_common_values:
  assumes "trends_of headers data = Inr t"
    and "has_column data col vals"
    and "col \<in> set headers"
    and "trimmed_values vals \<noteq> []"
  shows "(\<exists>ranked. dict_get (most_common_values t) col = Some (take 3 ranked)
            \<and> distinct (map fst ranked)
            \<and> set (map fst ranked) = set (trimmed_values vals)
            \<and> (\<forall>entry \<in> set ranked. snd entry = count_list (trimmed_values vals) (fst entry))
            \<and> sorted_wrt (ranked_before (trimmed_values vals)) ranked)
     \<and> trends_of [''c''] (build_records [''c''] [[''a''], [''b''], [''a''], [''c''], [''a''], [''b'']])
         = Inr \<lparr>most_common_values = [(''c'', [(''a'', 3), (''b'', 2), (''c'', 1)])],
                empty_cells = 0, total_cells = 6\<rparr>"
proof -
  from assms(1) obtain common where common: "most_common headers data [] = Inr common"
    and t: "most_common_values t = common"
    by (auto simp: trends_of_def split: sum.splits)
  have stripped: "stripped_values col data = Inr (trimmed_values vals)"
    using stripped_values_column [OF assms(2)] by (simp add: trimmed_values_def)
  have entry: "dict_get (most_common_values t) col = Some (top_values (trimmed_values vals))"
    using most_common_get [OF common assms(3) stripped assms(4)] t by simp
  have example: "trends_of [''c''] (build_records [''c''] [[''a''], [''b''], [''a''], [''c''], [''a''], [''b'']])
         = Inr \<lparr>most_common_values = [(''c'', [(''a'', 3), (''b'', 2), (''c'', 1)])],
                empty_cells = 0, total_cells = 6\<rparr>"
    by (simp add: trends_eval)
  show ?thesis
    using top_values_ranked [of "trimmed_values vals"] entry example by auto
qed

theorem trends_most_common_values_witness:
  "trends_of [''k'', ''n''] (build_records [''k'', ''n'']
       [['' x'', ''1''], [''y'', ''''], [''z '', ''1''], [''y'', ''2''], [''w'', ''3''], [''w'', ''4'']])
     = Inr \<lparr>most_common_values =
               [(''k'', [(''y'', 2), (''w'', 2), (''x'', 1)]), (''n'', [(''1'', 2), (''2'', 1), (''3'', 1)])],
             empty_cells = 1, total_cells = 12\<rparr>
   \<and> has_column (build_records [''k'', ''n'']
       [['' x'', ''1''], [''y'', ''''], [''z '', ''1''], [''y'', ''2''], [''w'', ''3''], [''w'', ''4'']])
       ''k'' ['' x'', ''y'', ''z '', ''y'', ''w'', ''w'']
   \<and> ''k'' \<in> set [''k'', ''n'']
   \<and> trimmed_values ['' x'', ''y'', ''z '', ''y'', ''w'', ''w''] = [''x'', ''y'', ''z'', ''y'', ''w'', ''w'']
   \<and> (\<exists>ranked. [(''y'', 2), (''w'', 2), (''x'', 1 :: nat)] = take 3 ranked
         \<and> sorted_wrt (ranked_before [''x'', ''y'', ''z'', ''y'', ''w'', ''w'']) ranked)"
proof -
  let ?data = "build_records [''k'', ''n'']
       [['' x'', ''1''], [''y'', ''''], [''z '', ''1''], [''y'', ''2''], [''w'', ''3''], [''w'', ''4'']]"
  let ?t = "\<lparr>most_common_values =
               [(''k'', [(''y'', 2), (''w'', 2), (''x'', 1)]), (''n'', [(''1'', 2), (''2'', 1), (''3'', 1)])],
             empty_cells = 1, total_cells = 12\<rparr>"
  have run: "trends_of [''k'', ''n''] ?data = Inr ?t"
    by (simp add: trends_eval)
  have column: "has_column ?data ''k'' ['' x'', ''y'', ''z '', ''y'', ''w'', ''w'']"
    by (simp add: trends_eval)
  have header: "''k'' \<in> set [''k'', ''n'']" by simp
  have trimmed: "trimmed_values ['' x'', ''y'', ''z '', ''y'', ''w'', ''w'']
      = [''x'', ''y'', ''z'', ''y'', ''w'', ''w'']"
    by (simp add: trends_eval)
  then have nonempty: "trimmed_values ['' x'', ''y'', ''z '', ''y'', ''w'', ''w''] \<noteq> []" by simp
  from trends_most_common_values [OF run column header nonempty]
  obtain ranked where "dict_get (most_common_values ?t) ''k'' = Some (take 3 ranked)"
    and "sorted_wrt (ranked_before (trimmed_values ['' x'', ''y'', ''z '', ''y'', ''w'', ''w''])) ranked"
    by blast
  then have "[(''y'', 2), (''w'', 2), (''x'', 1 :: nat)] = take 3 ranked
      \<and> sorted_wrt (ranked_before [''x'', ''y'', ''z'', ''y'', ''w'', ''w'']) ranked"
    by (simp add: trimmed dict_get_def)
  then show ?thesis
    using run column header trimmed by blast
qed

end
